theory Spec2Isabelle
  imports Main "HOL-Library.Word" "HOL-Library.Sublist"
begin

section \<open>Operators\<close>

text \<open>
  A \<open>DbOperator\<close> of the C code is a type tag, a union of per-command payloads, the
  client's file descriptor and a pointer to the client context. Tag and union together are
  the datatype \<open>OperatorFields\<close>, one constructor per tag, with the fields of the union
  member that the tag selects, in this order:
  \<^item> \<open>CREATE_DB db_name\<close>
  \<^item> \<open>CREATE_TBL db_name tbl_name col_count\<close>
  \<^item> \<open>CREATE_COL tbl_name col_name\<close>
  \<^item> \<open>LOAD data_path\<close>
  \<^item> \<open>SELECT select_col pre_range post_range handle\<close>
  \<^item> \<open>ERROR_CMD err_info\<close>

  All names, ranges and handles are C strings (\<open>char*\<close>, not \<open>NULL\<close>); the column
  count is a \<open>size_t\<close>, 64 bits wide. The declarations are not among the sources: the
  fields are the ones that parse.c, server.c and db\_batch\_queue.c use, and the tag of a
  selection, which none of them names, is called \<open>SELECT\<close> here.
\<close>

type_synonym addr = nat

datatype OperatorFields =
    CREATE_DB string
  | CREATE_TBL string string "64 word"
  | CREATE_COL string string
  | LOAD string
  | SELECT string string string string
  | SHUTDOWN
  | ERROR_CMD string

record DbOperator =
  operator_fields :: OperatorFields
  client_fd :: int
  client_context :: "addr option"

text \<open>
  What the C code can do beyond returning: the undefined behaviours that the functions
  modelled here can run into.
\<close>

datatype fault =
    Null_pointer
  | Dangling_pointer
  | Buffer_overflow
  | Out_of_bounds
  | Wrong_union_member
  | No_return_value
  | Int_out_of_range

section \<open>The batch queue (db\_batch\_queue.c)\<close>

subsection \<open>Memory\<close>

text \<open>
  Pointers are \<open>addr option\<close>, \<open>None\<close> being \<open>NULL\<close>. The global \<open>bq\<close> points to a
  \<open>batchQueue\<close> in the store \<open>queues\<close>; nodes live in the store \<open>nodes\<close>. A node's
  \<open>query\<close> is a pointer to an operator that no function of the queue writes through, so a
  node holds the operator it points to. A node's \<open>share_query_handle\<close> is the content of
  the buffer it points to.

  \<open>malloc\<close> hands out the addresses 0, 1, 2, ... in turn; \<open>oom n\<close> says that call number
  \<open>n\<close> fails. Memory that \<open>malloc\<close> returns is not initialised: a fresh node holds \<open>junk\<close>,
  whatever it is. The declaration of \<open>batchQueue\<close> is not among the sources; its counter
  \<open>length\<close> is taken as an integer that does not overflow.
\<close>

record bqNode =
  query :: DbOperator
  next_node :: "addr option"
  share_query_handle :: string

record batchQueue =
  head :: "addr option"
  tail :: "addr option"
  length_bq :: int

record bq_state =
  bq :: "addr option"
  queues :: "addr \<rightharpoonup> batchQueue"
  nodes :: "addr \<rightharpoonup> bqNode"
  mallocs :: nat
  oom :: "nat \<Rightarrow> bool"
  junk :: bqNode
  err_log :: "string list"

definition malloc :: "bq_state \<Rightarrow> addr option \<times> bq_state" where
  "malloc s =
     (if oom s (mallocs s) then None else Some (mallocs s), s\<lparr>mallocs := Suc (mallocs s)\<rparr>)"

definition log_err :: "string \<Rightarrow> bq_state \<Rightarrow> bq_state" where
  "log_err msg s = s\<lparr>err_log := err_log s @ [msg]\<rparr>"

text \<open>The state of a server that has not called any queue function: \<open>bq\<close> is \<open>NULL\<close>.\<close>

definition init_state :: "(nat \<Rightarrow> bool) \<Rightarrow> bqNode \<Rightarrow> bq_state" where
  "init_state f j =
     \<lparr>bq = None, queues = Map.empty, nodes = Map.empty, mallocs = 0, oom = f, junk = j,
      err_log = []\<rparr>"

subsection \<open>create\_node\<close>

text \<open>
  The buffer for the copy of the handle has \<open>sizeof(handle) + 1\<close> bytes, where \<open>handle\<close> is
  the field of the select operator; \<open>strcpy\<close> writes the characters of the handle and the
  terminating NUL. The field's declaration is not among the sources, so its size is the
  parameter \<open>sizeof_handle\<close>. A failed allocation of the node is reported; the allocation
  of the buffer is not checked, \<open>strcpy\<close> then writes through \<open>NULL\<close>.
\<close>

definition create_node :: "nat \<Rightarrow> DbOperator \<Rightarrow> bq_state \<Rightarrow> fault + (addr option \<times> bq_state)" where
  "create_node sizeof_handle q s =
     (case malloc s of
        (None, s1) \<Rightarrow> Inr (None, log_err ''create batch queue node failed.\<newline>'' s1)
      | (Some a, s1) \<Rightarrow>
          (case malloc s1 of
             (None, s2) \<Rightarrow> Inl Null_pointer
           | (Some b, s2) \<Rightarrow>
               (case operator_fields q of
                  SELECT col lo hi h \<Rightarrow>
                    if length h + 1 \<le> sizeof_handle + 1
                    then Inr (Some a, s2\<lparr>nodes := (nodes s2)(a \<mapsto>
                           \<lparr>query = q, next_node = None, share_query_handle = h\<rparr>)\<rparr>)
                    else Inl Buffer_overflow
                | _ \<Rightarrow> Inl Wrong_union_member)))"

subsection \<open>create\_batch\_queue\<close>

text \<open>
  Returns 1 when an allocation fails. When the first one fails \<open>bq\<close> is \<open>NULL\<close>; when the
  second one fails the queue is freed and \<open>bq\<close> keeps pointing to it. On success the
  sentinel is a fresh node that nobody initialises.
\<close>

definition create_batch_queue :: "bq_state \<Rightarrow> int \<times> bq_state" where
  "create_batch_queue s =
     (case malloc s of
        (None, s1) \<Rightarrow> (1, s1\<lparr>bq := None\<rparr>)
      | (Some a, s1) \<Rightarrow>
          (case malloc (s1\<lparr>bq := Some a\<rparr>) of
             (None, s2) \<Rightarrow> (1, s2\<lparr>queues := (queues s2)(a := None)\<rparr>)
           | (Some n, s2) \<Rightarrow>
               (0, s2\<lparr>nodes := (nodes s2)(n \<mapsto> junk s2),
                      queues := (queues s2)(a \<mapsto>
                        \<lparr>head = Some n, tail = Some n, length_bq = 0\<rparr>)\<rparr>)))"

subsection \<open>add\_batch\_queue\<close>

definition add_batch_queue :: "addr option \<Rightarrow> bq_state \<Rightarrow> fault + (int \<times> bq_state)" where
  "add_batch_queue node s =
     (case (bq s, node) of
        (Some a, Some n) \<Rightarrow>
          (case queues s a of
             None \<Rightarrow> Inl Dangling_pointer
           | Some q \<Rightarrow>
               (case tail q of
                  None \<Rightarrow> Inl Null_pointer
                | Some t \<Rightarrow>
                    (case nodes s t of
                       None \<Rightarrow> Inl Dangling_pointer
                     | Some tn \<Rightarrow>
                         Inr (0, s\<lparr>nodes := (nodes s)(t \<mapsto> tn\<lparr>next_node := Some n\<rparr>),
                                   queues := (queues s)(a \<mapsto>
                                     q\<lparr>tail := Some n, length_bq := length_bq q + 1\<rparr>)\<rparr>))))
      | _ \<Rightarrow> Inr (1, log_err ''The queue or the adding node is null.\<newline>'' s))"

subsection \<open>is\_bq\_empty\<close>

definition is_bq_empty :: "bq_state \<Rightarrow> fault + int" where
  "is_bq_empty s =
     (case bq s of
        None \<Rightarrow> Inr 0
      | Some a \<Rightarrow>
          (case queues s a of
             None \<Rightarrow> Inl Dangling_pointer
           | Some q \<Rightarrow> if head q = tail q then Inr 0 else Inr 1))"

subsection \<open>show\_batch\_query\<close>

text \<open>
  The loop \<open>while (node != NULL) { ...; node = node->next; }\<close>, collecting the addresses
  of the nodes it visits. On a cyclic chain it does not return: the result is \<open>None\<close>.
\<close>

partial_function (option) walk ::
  "(addr \<rightharpoonup> bqNode) \<Rightarrow> addr option \<Rightarrow> addr list \<Rightarrow> (fault + addr list) option" where
  "walk ns node acc =
     (case node of
        None \<Rightarrow> Some (Inr acc)
      | Some a \<Rightarrow>
          (case ns a of
             None \<Rightarrow> Some (Inl Dangling_pointer)
           | Some n \<Rightarrow> walk ns (next_node n) (acc @ [a])))"

text \<open>
  The nodes that \<open>show_batch_query\<close> visits: none when \<open>is_bq_empty\<close> returns 0, else the
  chain from \<open>bq->head->next\<close>.
\<close>

definition traverse :: "bq_state \<Rightarrow> (fault + addr list) option" where
  "traverse s =
     (case is_bq_empty s of
        Inl f \<Rightarrow> Some (Inl f)
      | Inr r \<Rightarrow>
          if r = 0 then Some (Inr [])
          else
            (case bq s of
               None \<Rightarrow> Some (Inl Null_pointer)
             | Some a \<Rightarrow>
                 (case queues s a of
                    None \<Rightarrow> Some (Inl Dangling_pointer)
                  | Some q \<Rightarrow>
                      (case head q of
                         None \<Rightarrow> Some (Inl Null_pointer)
                       | Some h \<Rightarrow>
                           (case nodes s h of
                              None \<Rightarrow> Some (Inl Dangling_pointer)
                            | Some hn \<Rightarrow> walk (nodes s) (next_node hn) [])))))"

text \<open>The line that \<open>printf\<close> writes for one node.\<close>

definition show_node :: "bqNode \<Rightarrow> fault + string" where
  "show_node n =
     (case operator_fields (query n) of
        SELECT col lo hi h \<Rightarrow>
          Inr (''query: '' @ col @ '', '' @ lo @ '', '' @ hi @ ''.\<newline>'')
      | _ \<Rightarrow> Inl Wrong_union_member)"

fun show_nodes :: "(addr \<rightharpoonup> bqNode) \<Rightarrow> addr list \<Rightarrow> fault + string list" where
  "show_nodes ns [] = Inr []"
| "show_nodes ns (a # as) =
     (case ns a of
        None \<Rightarrow> Inl Dangling_pointer
      | Some n \<Rightarrow>
          (case show_node n of
             Inl f \<Rightarrow> Inl f
           | Inr l \<Rightarrow>
               (case show_nodes ns as of Inl f \<Rightarrow> Inl f | Inr ls \<Rightarrow> Inr (l # ls))))"

definition show_batch_query :: "bq_state \<Rightarrow> (fault + string list) option" where
  "show_batch_query s =
     (case traverse s of
        None \<Rightarrow> None
      | Some (Inl f) \<Rightarrow> Some (Inl f)
      | Some (Inr as) \<Rightarrow> Some (show_nodes (nodes s) as))"

subsection \<open>Sequences of queue operations\<close>

text \<open>
  Enqueuing an operator is \<open>create_node\<close> followed by \<open>add_batch_queue\<close> of the node it
  returns.
\<close>

definition enqueue :: "nat \<Rightarrow> DbOperator \<Rightarrow> bq_state \<Rightarrow> fault + (int \<times> bq_state)" where
  "enqueue sizeof_handle q s =
     (case create_node sizeof_handle q s of
        Inl f \<Rightarrow> Inl f
      | Inr (node, s1) \<Rightarrow> add_batch_queue node s1)"

datatype bq_op = Create | Enqueue DbOperator

fun run :: "nat \<Rightarrow> bq_op list \<Rightarrow> bq_state \<Rightarrow> fault + bq_state" where
  "run sz [] s = Inr s"
| "run sz (Create # ops) s = run sz ops (snd (create_batch_queue s))"
| "run sz (Enqueue q # ops) s =
     (case enqueue sz q s of Inl f \<Rightarrow> Inl f | Inr (r, s1) \<Rightarrow> run sz ops s1)"

section \<open>String helpers (utils\_func.c and the C library)\<close>

text \<open>
  A C string is the list of its characters before the terminating NUL.
  \<open>char_at str i\<close> is \<open>str[i]\<close> inside the string: one of its characters, or the
  terminator.
\<close>

definition char_at :: "string \<Rightarrow> int \<Rightarrow> char option" where
  "char_at str i =
     (if 0 \<le> i \<and> i < int (length str) then Some (str ! nat i)
      else if i = int (length str) then Some (CHR 0x00)
      else None)"

text \<open>
  A token that \<open>strsep\<close> returns is a pointer into the command buffer, and the byte in
  front of it belongs to the same buffer: for every token but the first it is the
  delimiter that the call before overwrote with NUL. \<open>token_read before str i\<close> is
  \<open>str[i]\<close> for a token \<open>str\<close> with the byte \<open>before\<close> in front of it: index \<open>-1\<close>
  reads that byte.
\<close>

definition token_read :: "char \<Rightarrow> string \<Rightarrow> int \<Rightarrow> char option" where
  "token_read before str i = (if i = - 1 then Some before else char_at str i)"

text \<open>\<open>isspace\<close> of the C locale: space, tab, line feed, vertical tab, form feed, return.\<close>

definition isspace :: "char \<Rightarrow> bool" where
  "isspace c \<longleftrightarrow>
     c = CHR '' '' \<or> c = CHR 0x09 \<or> c = CHR 0x0A \<or> c = CHR 0x0B \<or> c = CHR 0x0C \<or> c = CHR 0x0D"

text \<open>
  The loop shared by \<open>trim_newline\<close>, \<open>trim_whitespace\<close>, \<open>trim_parenthesis\<close> and
  \<open>trim_quote\<close>: it copies every character to keep down to position \<open>current\<close> of the
  same buffer and then writes the terminator at \<open>current\<close>.
\<close>

function trim_loop :: "(char \<Rightarrow> bool) \<Rightarrow> string \<Rightarrow> nat \<Rightarrow> nat \<Rightarrow> nat \<Rightarrow> string" where
  "trim_loop keep str len current i =
     (if i < len then
        (if keep (str ! i) then trim_loop keep (str[current := str ! i]) len (Suc current) (Suc i)
         else trim_loop keep str len current (Suc i))
      else take current str)"
  by pat_completeness auto
termination
  by (relation "measure (\<lambda>(keep, str, len, current, i). len - i)") auto

definition trim_whitespace :: "string \<Rightarrow> string" where
  "trim_whitespace str = trim_loop (\<lambda>c. \<not> isspace c) str (length str) 0 0"

definition trim_quote :: "string \<Rightarrow> string" where
  "trim_quote str = trim_loop (\<lambda>c. c \<noteq> CHR 0x22) str (length str) 0 0"

text \<open>
  Modelled from the spec: \<open>trim_quotes\<close>, which parse.c calls, is not among the sources
  (utils\_func.c has \<open>trim_quote\<close>). The spec: every double-quote character is deleted, not
  just the first and last.
\<close>

definition trim_quotes :: "string \<Rightarrow> string" where
  "trim_quotes str = filter (\<lambda>c. c \<noteq> CHR 0x22) str"

text \<open>
  \<open>strncmp(a, b, n) == 0\<close>: the strings agree on their first \<open>n\<close> characters, or are
  equal and shorter.
\<close>

definition strncmp_eq :: "string \<Rightarrow> string \<Rightarrow> nat \<Rightarrow> bool" where
  "strncmp_eq a b n \<longleftrightarrow> take n a = take n b"

text \<open>
  \<open>strsep(&p, delim)\<close> for a single delimiter, as a function from the old \<open>p\<close> to the
  token returned and the new \<open>p\<close>.
\<close>

definition strsep :: "string option \<Rightarrow> char \<Rightarrow> string option \<times> string option" where
  "strsep stringp delim =
     (case stringp of
        None \<Rightarrow> (None, None)
      | Some s \<Rightarrow>
          if delim \<in> set s
          then (Some (takeWhile (\<lambda>c. c \<noteq> delim) s), Some (tl (dropWhile (\<lambda>c. c \<noteq> delim) s)))
          else (Some s, None))"

text \<open>
  \<open>atoi\<close> of the C library: white space, an optional sign, then decimal digits up to the
  first character that is not one. The value is the mathematical one; the caller checks
  that it is an \<open>int\<close>, since C leaves the result undefined otherwise.
\<close>

definition isdigit :: "char \<Rightarrow> bool" where
  "isdigit c \<longleftrightarrow> 48 \<le> (of_char c :: nat) \<and> (of_char c :: nat) \<le> 57"

fun atoi_digits :: "string \<Rightarrow> int \<Rightarrow> int" where
  "atoi_digits [] acc = acc"
| "atoi_digits (c # cs) acc =
     (if isdigit c then atoi_digits cs (acc * 10 + (of_char c - 48)) else acc)"

definition atoi :: "string \<Rightarrow> int" where
  "atoi str =
     (case dropWhile isspace str of
        [] \<Rightarrow> 0
      | c # cs \<Rightarrow>
          if c = CHR ''-'' then - atoi_digits cs 0
          else if c = CHR ''+'' then atoi_digits cs 0
          else atoi_digits (c # cs) 0)"

section \<open>The command compiler (parse.c)\<close>

text \<open>
  The parse functions build the tag and the payload of an operator; \<open>parse_command\<close> adds
  the client's descriptor and context. Their allocations are not checked in the C code
  and are taken to succeed; what they write to the log is left out.
\<close>

datatype message_status =
    OK_DONE
  | OK_WAIT_FOR_RESPONSE
  | INCORRECT_FORMAT
  | UNKNOWN_COMMAND
  | OBJECT_NOT_FOUND

definition next_token_comma ::
  "string option \<Rightarrow> message_status \<Rightarrow> string option \<times> string option \<times> message_status" where
  "next_token_comma tokenizer status =
     (case strsep tokenizer (CHR '','') of
        (token, tokenizer') \<Rightarrow>
          (token, tokenizer', if token = None then INCORRECT_FORMAT else status))"

definition error_dbo :: "string \<Rightarrow> OperatorFields" where
  "error_dbo error_info = ERROR_CMD error_info"

definition create_col_usage :: string where
  \<open>create_col_usage =
     ''create column command is error, use command like [create(col,"col_name",full_tbl_name)]''\<close>

definition create_tbl_usage :: string where
  \<open>create_tbl_usage =
     ''create table command is error, use command like [create(tbl,"grades",name,2)]''\<close>

definition create_db_usage :: string where
  \<open>create_db_usage = ''create database command is error, use command like [create(db,"name")]''\<close>

definition load_usage :: string where
  \<open>load_usage = ''load data command is error, use command like [load("data_path")]''\<close>

text \<open>
  In \<open>parse_create_col\<close> the table name is the second token, so the byte in front of it is
  the NUL that \<open>strsep\<close> wrote over the first comma; \<open>trim_quotes\<close> of the first token
  writes in front of that NUL only.
\<close>

definition parse_create_col :: "string \<Rightarrow> fault + OperatorFields" where
  "parse_create_col query_command =
     (case next_token_comma (Some query_command) OK_DONE of
        (col_name, idx1, status1) \<Rightarrow>
          (case col_name of
             None \<Rightarrow> Inl Null_pointer
           | Some col_name0 \<Rightarrow>
               (let col_name = trim_quotes col_name0 in
                case next_token_comma idx1 status1 of
                  (full_tbl_name, idx2, status2) \<Rightarrow>
                    if status2 = INCORRECT_FORMAT then Inr (error_dbo create_col_usage)
                    else
                      (case full_tbl_name of
                         None \<Rightarrow> Inl Null_pointer
                       | Some full_tbl_name0 \<Rightarrow>
                           (let last_char = int (length full_tbl_name0) - 1 in
                            case token_read (CHR 0x00) full_tbl_name0 last_char of
                              None \<Rightarrow> Inl Out_of_bounds
                            | Some c \<Rightarrow>
                                if c \<noteq> CHR '')'' then Inr (error_dbo create_col_usage)
                                else
                                  (let full_tbl_name = take (nat last_char) full_tbl_name0
                                   in Inr (CREATE_COL full_tbl_name
                                            (full_tbl_name @ ''.'' @ col_name))))))))"

text \<open>
  In \<open>parse_create_tbl\<close> the count is the third token, so the byte in front of it is the
  NUL that \<open>strsep\<close> wrote over the second comma. The result of \<open>atoi\<close>, an \<open>int\<close>, is
  stored in a \<open>size_t\<close> before it is compared with 1.
\<close>

definition parse_create_tbl :: "string \<Rightarrow> fault + OperatorFields" where
  "parse_create_tbl query_command =
     (case next_token_comma (Some query_command) OK_DONE of
        (tbl_name, idx1, status1) \<Rightarrow>
          (case next_token_comma idx1 status1 of
             (db_name, idx2, status2) \<Rightarrow>
               (case next_token_comma idx2 status2 of
                  (col_cnt, idx3, status3) \<Rightarrow>
                    if status3 = INCORRECT_FORMAT then Inr (error_dbo create_tbl_usage)
                    else
                      (case (tbl_name, db_name, col_cnt) of
                         (Some tbl_name0, Some db_name, Some col_cnt0) \<Rightarrow>
                           (let tbl_name = trim_quotes tbl_name0;
                                last_char = int (length col_cnt0) - 1
                            in case token_read (CHR 0x00) col_cnt0 last_char of
                                 None \<Rightarrow> Inl Out_of_bounds
                               | Some c \<Rightarrow>
                                   if c \<noteq> CHR '')'' then Inr (error_dbo create_tbl_usage)
                                   else
                                     (let col_cnt = take (nat last_char) col_cnt0;
                                          n = atoi col_cnt
                                      in if n < - (2 ^ 31) \<or> 2 ^ 31 \<le> n then Inl Int_out_of_range
                                         else
                                           (let column_cnt = (word_of_int n :: 64 word)
                                            in if column_cnt < 1
                                               then Inr (error_dbo
                                                 ''query unsupported, wrong column number'')
                                               else Inr (CREATE_TBL db_name
                                                 (db_name @ ''.'' @ tbl_name) column_cnt))))
                       | _ \<Rightarrow> Inl Null_pointer))))"

definition parse_create_db :: "string \<Rightarrow> fault + OperatorFields" where
  "parse_create_db query_command =
     (let db_name0 = trim_quotes query_command;
          last_char = int (length db_name0) - 1
      in if last_char < 0 then Inr (error_dbo create_db_usage)
         else
           (case char_at db_name0 last_char of
              None \<Rightarrow> Inl Out_of_bounds
            | Some c \<Rightarrow>
                if c \<noteq> CHR '')'' then Inr (error_dbo create_db_usage)
                else Inr (CREATE_DB (take (nat last_char) db_name0))))"

definition parse_load :: "string \<Rightarrow> fault + OperatorFields" where
  "parse_load query_command =
     (let data_path0 = trim_quotes query_command;
          last_char = int (length data_path0) - 1
      in if last_char < 0 then Inr (error_dbo load_usage)
         else
           (case char_at data_path0 last_char of
              None \<Rightarrow> Inl Out_of_bounds
            | Some c \<Rightarrow>
                if c \<noteq> CHR '')'' then Inr (error_dbo load_usage)
                else Inr (LOAD (take (nat last_char) data_path0))))"

text \<open>
  The body of \<open>parse_insert\<close> is commented out: the function returns without a value,
  and \<open>parse_command\<close> uses that value as a pointer.
\<close>

definition parse_insert :: "string \<Rightarrow> fault + OperatorFields" where
  "parse_insert query_command = Inl No_return_value"

text \<open>
  \<open>parse_command\<close> returns the status it stores into \<open>send_message\<close> and the operator,
  \<open>None\<close> for the \<open>NULL\<close> that a comment line yields. The handle before an \<open>=\<close> is
  only logged.
\<close>

definition after_handle :: "string \<Rightarrow> string" where
  "after_handle query_command =
     (if CHR ''='' \<in> set query_command
      then tl (dropWhile (\<lambda>c. c \<noteq> CHR ''='') query_command)
      else query_command)"

definition parse_command ::
  "string \<Rightarrow> int \<Rightarrow> addr option \<Rightarrow> fault + (message_status \<times> DbOperator option)" where
  "parse_command query_command client_socket context =
     (if strncmp_eq query_command ''--'' 2 then Inr (OK_DONE, None)
      else
        (let query_command1 = trim_whitespace (after_handle query_command);
             dbo =
               (if strncmp_eq query_command1 ''create(db,'' 10
                then parse_create_db (drop 10 query_command1)
                else if strncmp_eq query_command1 ''create(tbl,'' 11
                then parse_create_tbl (drop 11 query_command1)
                else if strncmp_eq query_command1 ''create(col,'' 11
                then parse_create_col (drop 11 query_command1)
                else if strncmp_eq query_command1 ''load('' 5
                then parse_load (drop 5 query_command1)
                else if strncmp_eq query_command1 ''relational_insert'' 17
                then parse_insert (drop 17 query_command1)
                else if strncmp_eq query_command1 ''shutdown'' 8
                then Inr SHUTDOWN
                else Inr (error_dbo ''error command, please try again.\<newline>''))
         in case dbo of
              Inl f \<Rightarrow> Inl f
            | Inr payload \<Rightarrow>
                Inr (OK_WAIT_FOR_RESPONSE,
                     Some \<lparr>operator_fields = payload, client_fd = client_socket,
                           client_context = context\<rparr>)))"

section \<open>The dispatcher (server.c)\<close>

text \<open>
  The catalog functions that db\_manager.h declares, and the three functions that free
  the stores, are not among the sources. They are parameters: each one maps the catalog
  state \<open>'c\<close>, whatever it is, to its result and the new state. \<open>calls\<close> records the
  order in which the dispatcher calls them, \<open>server_log\<close> what it writes with \<open>log_err\<close>.
\<close>

datatype call =
    Call_create_db string
  | Call_create_table string string "64 word"
  | Call_create_column string string
  | Call_load_data_csv string
  | Call_persist_data_csv
  | Call_free_db_store
  | Call_free_tbl_store
  | Call_free_col_store

record 'c collaborators =
  create_db :: "string \<Rightarrow> 'c \<Rightarrow> addr option \<times> 'c"
  create_table :: "string \<Rightarrow> string \<Rightarrow> 64 word \<Rightarrow> 'c \<Rightarrow> addr option \<times> 'c"
  create_column :: "string \<Rightarrow> string \<Rightarrow> 'c \<Rightarrow> addr option \<times> 'c"
  load_data_csv :: "string \<Rightarrow> 'c \<Rightarrow> int \<times> 'c"
  persist_data_csv :: "'c \<Rightarrow> int \<times> 'c"
  free_db_store :: "'c \<Rightarrow> 'c"
  free_tbl_store :: "'c \<Rightarrow> 'c"
  free_col_store :: "'c \<Rightarrow> 'c"

record 'c server_state =
  catalog :: 'c
  current_db :: "addr option"
  server_log :: "string list"
  calls :: "call list"

definition called :: "call \<Rightarrow> 'c \<Rightarrow> 'c server_state \<Rightarrow> 'c server_state" where
  "called c cat st = st\<lparr>catalog := cat, calls := calls st @ [c]\<rparr>"

definition execute_DbOperator ::
  "'c collaborators \<Rightarrow> DbOperator option \<Rightarrow> 'c server_state \<Rightarrow> fault + (string \<times> 'c server_state)" where
  "execute_DbOperator ext dbo st =
     (case dbo of
        None \<Rightarrow> Inl Null_pointer
      | Some q \<Rightarrow>
          (case operator_fields q of
             ERROR_CMD err_info \<Rightarrow> Inr (''error command, please try again.\<newline>'', st)
           | CREATE_DB db_name \<Rightarrow>
               (case create_db ext db_name (catalog st) of
                  (db, cat) \<Rightarrow>
                    (let st1 = (called (Call_create_db db_name) cat st)\<lparr>current_db := db\<rparr>
                     in if db = None then Inr (''create database failed.\<newline>'', st1)
                        else Inr (''create database successfully.\<newline>'', st1)))
           | CREATE_TBL db_name tbl_name col_count \<Rightarrow>
               (case create_table ext db_name tbl_name col_count (catalog st) of
                  (tbl, cat) \<Rightarrow>
                    (let st1 = called (Call_create_table db_name tbl_name col_count) cat st
                     in if tbl = None then Inr (''create table failed.\<newline>'', st1)
                        else Inr (''create table successfully.\<newline>'', st1)))
           | CREATE_COL full_tbl_name full_col_name \<Rightarrow>
               (case create_column ext full_tbl_name full_col_name (catalog st) of
                  (col, cat) \<Rightarrow>
                    (let st1 = called (Call_create_column full_tbl_name full_col_name) cat st
                     in if col = None then Inr (''create column failed.\<newline>'', st1)
                        else Inr (''create column successfully.\<newline>'', st1)))
           | LOAD data_path \<Rightarrow>
               (case load_data_csv ext data_path (catalog st) of
                  (r, cat) \<Rightarrow>
                    (let st1 = called (Call_load_data_csv data_path) cat st
                     in if r \<noteq> 0 then Inr (''load data into database failed.\<newline>'', st1)
                        else Inr (''load data into database successfully.\<newline>'', st1)))
           | SHUTDOWN \<Rightarrow>
               (case persist_data_csv ext (catalog st) of
                  (r, cat) \<Rightarrow>
                    (let st1 = called Call_persist_data_csv cat st;
                         st2 = (if r \<noteq> 0
                                then st1\<lparr>server_log := server_log st1 @
                                       [''persist all the data failed.\<newline>'']\<rparr>
                                else st1);
                         st3 = called Call_free_db_store (free_db_store ext (catalog st2)) st2;
                         st4 = called Call_free_tbl_store (free_tbl_store ext (catalog st3)) st3;
                         st5 = called Call_free_col_store (free_col_store ext (catalog st4)) st4
                     in Inr (''persist all the data and shutdown the server.\<newline>'', st5)))
           | SELECT col lo hi h \<Rightarrow> Inr (''unsupported command, try again.\<newline>'', st)))"

text \<open>
  One round of the loop of \<open>handle_client\<close>: the command received is parsed, and the
  result of \<open>parse_command\<close> is passed to \<open>execute_DbOperator\<close> as it is.
\<close>

definition handle_client ::
  "'c collaborators \<Rightarrow> string \<Rightarrow> int \<Rightarrow> 'c server_state \<Rightarrow> fault + (string \<times> 'c server_state)" where
  "handle_client ext payload client_socket st =
     (case parse_command payload client_socket None of
        Inl f \<Rightarrow> Inl f
      | Inr (status, dbo) \<Rightarrow> execute_DbOperator ext dbo st)"

section \<open>Vocabulary of the properties\<close>

text \<open>
  The keywords that \<open>parse_command\<close> knows, and whether a command text starts with one
  of them.
\<close>

definition keyword_set :: "string list" where
  "keyword_set =
     [''create(db,'', ''create(tbl,'', ''create(col,'', ''load('', ''relational_insert'',
      ''shutdown'']"

definition has_keyword :: "string \<Rightarrow> bool" where
  "has_keyword str \<longleftrightarrow> (\<exists>k \<in> set keyword_set. prefix k str)"

text \<open>
  Stripping as the specification words it: the white space in front of the first and
  behind the last other character goes, everything between them stays.
\<close>

definition strip_leading_trailing_whitespace :: "string \<Rightarrow> string" where
  "strip_leading_trailing_whitespace str =
     rev (dropWhile isspace (rev (dropWhile isspace str)))"

text \<open>
  Concrete surroundings for examples: an allocator that never fails, a node of zeros, a
  node whose \<open>next\<close> is the left-over pointer 2, a catalog that only counts, and a
  server that has not executed anything.
\<close>

definition no_oom :: "nat \<Rightarrow> bool" where
  "no_oom n = False"

definition blank_node :: bqNode where
  "blank_node =
     \<lparr>query = \<lparr>operator_fields = SHUTDOWN, client_fd = 0, client_context = None\<rparr>,
      next_node = None, share_query_handle = []\<rparr>"

definition stale_node :: bqNode where
  "stale_node =
     \<lparr>query = \<lparr>operator_fields = SHUTDOWN, client_fd = 0, client_context = None\<rparr>,
      next_node = Some 2, share_query_handle = []\<rparr>"

definition stub_collaborators :: "nat collaborators" where
  "stub_collaborators =
     \<lparr>create_db = (\<lambda>n c. (Some c, Suc c)),
      create_table = (\<lambda>d t k c. (Some c, Suc c)),
      create_column = (\<lambda>t n c. (Some c, Suc c)),
      load_data_csv = (\<lambda>p c. (0, c)),
      persist_data_csv = (\<lambda>c. (0, c)),
      free_db_store = (\<lambda>c. 0),
      free_tbl_store = (\<lambda>c. 0),
      free_col_store = (\<lambda>c. 0)\<rparr>"

definition idle_server :: "nat server_state" where
  "idle_server = \<lparr>catalog = 0, current_db = None, server_log = [], calls = []\<rparr>"

text \<open>
  The shape of a queue in memory. \<open>chain ns p as\<close>: following \<open>next\<close> from the pointer
  \<open>p\<close> visits exactly the nodes \<open>as\<close> and then reaches \<open>NULL\<close>. \<open>queue_ok s q as\<close>: the
  sentinel of \<open>q\<close> is allocated, the real nodes are \<open>as\<close>, all different and none the
  sentinel, the counter is their number, and the tail is the last of them, or the sentinel
  when there is none. \<open>bq_inv\<close>: if \<open>bq\<close> points to a live queue, the queue has this shape.
\<close>

fun chain :: "(addr \<rightharpoonup> bqNode) \<Rightarrow> addr option \<Rightarrow> addr list \<Rightarrow> bool" where
  "chain ns p [] \<longleftrightarrow> p = None"
| "chain ns p (a # as) \<longleftrightarrow>
     p = Some a \<and> (case ns a of None \<Rightarrow> False | Some n \<Rightarrow> chain ns (next_node n) as)"

definition queue_ok :: "bq_state \<Rightarrow> batchQueue \<Rightarrow> addr list \<Rightarrow> bool" where
  "queue_ok s q as \<longleftrightarrow>
     (case head q of
        None \<Rightarrow> False
      | Some h \<Rightarrow>
          (case nodes s h of
             None \<Rightarrow> False
           | Some hn \<Rightarrow>
               h \<notin> set as \<and> distinct as \<and> h < mallocs s \<and> list_all (\<lambda>a. a < mallocs s) as \<and>
               length_bq q = int (length as) \<and>
               (if as = [] then tail q = Some h
                else tail q = Some (last as) \<and> chain (nodes s) (next_node hn) as)))"

definition bq_inv :: "bq_state \<Rightarrow> bool" where
  "bq_inv s \<longleftrightarrow>
     (case bq s of
        None \<Rightarrow> True
      | Some a \<Rightarrow> (case queues s a of None \<Rightarrow> True | Some q \<Rightarrow> (\<exists>as. queue_ok s q as)))"

section \<open>Properties\<close>

subsection \<open>Strings\<close>

declare trim_loop.simps [simp del]

lemma trim_loop_filter:
  "current \<le> i \<Longrightarrow> i \<le> length str \<Longrightarrow> len = length str \<Longrightarrow>
   trim_loop keep str len current i = take current str @ filter keep (drop i str)"
proof (induction keep str len current i rule: trim_loop.induct)
  case (1 keep str len current i)
  show ?case
  proof (cases "i < len")
    case False
    with "1.prems" show ?thesis by (subst trim_loop.simps) simp
  next
    case True
    then have d: "drop i str = str ! i # drop (Suc i) str"
      using "1.prems" by (simp add: Cons_nth_drop_Suc)
    show ?thesis
    proof (cases "keep (str ! i)")
      case False
      have "trim_loop keep str len current i = trim_loop keep str len current (Suc i)"
        using True False by (subst trim_loop.simps) simp
      also have "\<dots> = take current str @ filter keep (drop (Suc i) str)"
        using "1.IH"(2) [OF True False] True "1.prems" by simp
      finally show ?thesis using d False by simp
    next
      case k: True
      have c: "current < length str" using True "1.prems" by simp
      have "trim_loop keep str len current i =
            trim_loop keep (str[current := str ! i]) len (Suc current) (Suc i)"
        using True k by (subst trim_loop.simps) simp
      also have "\<dots> = take (Suc current) (str[current := str ! i]) @
                       filter keep (drop (Suc i) (str[current := str ! i]))"
        using "1.IH"(1) [OF True k] True "1.prems" by simp
      also have "take (Suc current) (str[current := str ! i]) = take current str @ [str ! i]"
        using c by (simp add: take_Suc_conv_app_nth)
      also have "drop (Suc i) (str[current := str ! i]) = drop (Suc i) str"
        using "1.prems" by simp
      finally show ?thesis using d k by simp
    qed
  qed
qed

lemma trim_whitespace_filter: "trim_whitespace str = filter (\<lambda>c. \<not> isspace c) str"
  by (simp add: trim_whitespace_def trim_loop_filter)

text \<open>
  \<open>trim_quote\<close> of utils\_func.c computes what the specification says of
  \<open>trim_quotes\<close>.
\<close>

lemma trim_quote_filter: "trim_quote str = trim_quotes str"
  by (simp add: trim_quote_def trim_quotes_def trim_loop_filter)

lemma strncmp_eq_prefix: "strncmp_eq s k (length k) \<longleftrightarrow> prefix k s"
proof
  assume "strncmp_eq s k (length k)"
  then have "take (length k) s = k" by (simp add: strncmp_eq_def)
  then have "s = k @ drop (length k) s" by (metis append_take_drop_id)
  then show "prefix k s" by (metis prefixI)
next
  assume "prefix k s"
  then show "strncmp_eq s k (length k)" by (auto simp: strncmp_eq_def prefix_def)
qed

lemma no_prefix_strncmp: "\<not> prefix k s \<Longrightarrow> length k = n \<Longrightarrow> \<not> strncmp_eq s k n"
  using strncmp_eq_prefix [of s k] by auto

lemma strsep_token: "d \<notin> set tok \<Longrightarrow> strsep (Some (tok @ d # rest)) d = (Some tok, Some rest)"
proof -
  assume d: "d \<notin> set tok"
  then have "takeWhile (\<lambda>c. c \<noteq> d) (tok @ d # rest) = tok"
    by (induction tok) auto
  moreover from d have "dropWhile (\<lambda>c. c \<noteq> d) (tok @ d # rest) = d # rest"
    by (induction tok) auto
  ultimately show ?thesis by (simp add: strsep_def)
qed

lemma strsep_last: "d \<notin> set s \<Longrightarrow> strsep (Some s) d = (Some s, None)"
  by (simp add: strsep_def)

lemma size_t_less_1:
  assumes "- (2 ^ 31) \<le> n" and "n < 2 ^ 31"
  shows "(word_of_int n :: 64 word) < 1 \<longleftrightarrow> n = 0"
proof -
  have "(word_of_int n :: 64 word) = 0 \<longleftrightarrow> 2 ^ 64 dvd n"
    by (simp add: word_of_int_eq_0_iff)
  moreover have "2 ^ 64 dvd n \<longleftrightarrow> n = 0"
  proof
    assume "(2::int) ^ 64 dvd n"
    then obtain k where k: "n = 2 ^ 64 * k" by (auto simp: dvd_def)
    with assms have "k = 0" by simp
    with k show "n = 0" by simp
  qed simp
  ultimately show ?thesis by (simp add: word_less_1)
qed

lemmas parse_defs =
  parse_command_def strncmp_eq_def after_handle_def trim_whitespace_filter isspace_def
  parse_create_tbl_def parse_create_col_def parse_create_db_def parse_load_def
  parse_insert_def next_token_comma_def strsep_def trim_quotes_def char_at_def
  token_read_def atoi_def
  isdigit_def error_dbo_def create_tbl_usage_def create_col_usage_def create_db_usage_def
  load_usage_def

lemmas queue_defs =
  init_state_def enqueue_def create_node_def create_batch_queue_def add_batch_queue_def
  malloc_def log_err_def show_batch_query_def traverse_def is_bq_empty_def walk.simps
  show_node_def

subsection \<open>The shape of the queue\<close>

lemma walk_chain: "chain ns p as \<Longrightarrow> walk ns p acc = Some (Inr (acc @ as))"
proof (induction as arbitrary: p acc)
  case Nil
  then show ?case by (simp add: walk.simps)
next
  case (Cons a as)
  then obtain n where n: "p = Some a" "ns a = Some n" "chain ns (next_node n) as"
    by (auto split: option.splits)
  from Cons.IH [OF n(3), of "acc @ [a]"] n(1,2) show ?case
    by (subst walk.simps) simp
qed

lemma traverse_queue_ok:
  assumes "bq s = Some a" and "queues s a = Some q" and "queue_ok s q as"
  shows "traverse s = Some (Inr as)"
proof -
  from assms(3) obtain h hn where h: "head q = Some h" "nodes s h = Some hn" "h \<notin> set as"
    and t: "if as = [] then tail q = Some h
            else tail q = Some (last as) \<and> chain (nodes s) (next_node hn) as"
    by (auto simp: queue_ok_def split: option.splits)
  show ?thesis
  proof (cases "as = []")
    case True
    with t h assms(1,2) show ?thesis by (simp add: traverse_def is_bq_empty_def)
  next
    case False
    with t have "tail q = Some (last as)" and c: "chain (nodes s) (next_node hn) as" by simp_all
    moreover have "last as \<noteq> h" using False h(3) last_in_set by metis
    ultimately have "head q \<noteq> tail q" using h(1) by simp
    with assms(1,2) h walk_chain [OF c, of "[]"] show ?thesis
      by (simp add: traverse_def is_bq_empty_def)
  qed
qed

lemma chain_update_other: "a \<notin> set as \<Longrightarrow> chain (ns(a \<mapsto> n)) p as = chain ns p as"
  by (induction as arbitrary: p) (auto split: option.splits)

lemma chain_snoc:
  assumes "chain ns p as" and "as \<noteq> []" and "distinct as" and "a \<notin> set as"
    and "ns (last as) = Some tn" and "next_node new = None"
  shows "chain (ns(a \<mapsto> new, last as \<mapsto> tn\<lparr>next_node := Some a\<rparr>)) p (as @ [a])"
  using assms
proof (induction as arbitrary: p)
  case Nil
  then show ?case by simp
next
  case (Cons x xs)
  show ?case
  proof (cases "xs = []")
    case True
    with Cons.prems show ?thesis by (auto split: option.splits)
  next
    case False
    from Cons.prems(1) obtain n where n: "p = Some x" "ns x = Some n" "chain ns (next_node n) xs"
      by (auto split: option.splits)
    have l: "last (x # xs) = last xs" using False by simp
    have "x \<noteq> last xs" using False Cons.prems(3) last_in_set by fastforce
    moreover have "x \<noteq> a" using Cons.prems(4) by simp
    moreover have d: "distinct xs" "a \<notin> set xs" using Cons.prems by simp_all
    moreover have lt: "ns (last xs) = Some tn" using Cons.prems(5) l by simp
    moreover note Cons.IH [OF n(3) False d lt Cons.prems(6)]
    ultimately show ?thesis using n l by simp
  qed
qed


lemma chain_dom: "chain ns p as \<Longrightarrow> a \<in> set as \<Longrightarrow> \<exists>n. ns a = Some n"
  by (induction as arbitrary: p) (auto split: option.splits)

lemma create_node_cases:
  assumes "create_node sz dbo s = Inr (node, s1)"
  shows "bq s1 = bq s \<and> queues s1 = queues s \<and> mallocs s < mallocs s1 \<and>
         (case node of
            None \<Rightarrow> nodes s1 = nodes s
          | Some n \<Rightarrow> n = mallocs s \<and>
              (\<exists>col lo hi h. operator_fields dbo = SELECT col lo hi h \<and> length h \<le> sz \<and>
                nodes s1 = (nodes s)(n \<mapsto>
                  \<lparr>query = dbo, next_node = None, share_query_handle = h\<rparr>)))"
  using assms
  by (auto simp: create_node_def malloc_def log_err_def
      split: if_splits OperatorFields.splits)

lemma queue_ok_same_nodes:
  "queue_ok s q as \<Longrightarrow> nodes s1 = nodes s \<Longrightarrow> mallocs s \<le> mallocs s1 \<Longrightarrow> queue_ok s1 q as"
  by (auto simp: queue_ok_def list_all_iff split: option.splits)

lemma queue_ok_fresh_node:
  assumes "queue_ok s q as" and "nodes s1 = (nodes s)(mallocs s \<mapsto> new)"
    and "mallocs s < mallocs s1"
  shows "queue_ok s1 q as \<and> mallocs s \<notin> set as \<and> head q \<noteq> Some (mallocs s)"
proof -
  from assms(1) obtain h hn where h: "head q = Some h" "nodes s h = Some hn" "h \<notin> set as"
    "distinct as" "h < mallocs s" "list_all (\<lambda>a. a < mallocs s) as"
    "length_bq q = int (length as)"
    and t: "if as = [] then tail q = Some h
            else tail q = Some (last as) \<and> chain (nodes s) (next_node hn) as"
    by (auto simp: queue_ok_def split: option.splits)
  have f: "mallocs s \<notin> set as" using h(6) by (auto simp: list_all_iff)
  have c: "chain (nodes s1) p as = chain (nodes s) p as" for p
    using f assms(2) by (simp add: chain_update_other)
  have "nodes s1 h = Some hn" using h(2,5) assms(2) by simp
  moreover have "list_all (\<lambda>a. a < mallocs s1) as" "h < mallocs s1"
    using h(5,6) assms(3) by (auto simp: list_all_iff)
  ultimately have "queue_ok s1 q as"
    using h t c by (simp add: queue_ok_def)
  with f h(1,5) show ?thesis by auto
qed

lemma add_batch_queue_ok:
  assumes "bq s = Some a" and "queues s a = Some q" and "queue_ok s q as"
    and "nodes s n = Some new" and "next_node new = None"
    and "n \<notin> set as" and "head q \<noteq> Some n" and "n < mallocs s"
  shows "\<exists>s' q'. add_batch_queue (Some n) s = Inr (0, s') \<and> bq s' = Some a \<and>
           queues s' a = Some q' \<and> head q' = head q \<and> queue_ok s' q' (as @ [n]) \<and>
           nodes s' n = Some new \<and>
           (\<forall>b \<in> set as. map_option query (nodes s' b) = map_option query (nodes s b) \<and>
              map_option share_query_handle (nodes s' b) =
                map_option share_query_handle (nodes s b))"
proof -
  from assms(3) obtain h hn where h: "head q = Some h" "nodes s h = Some hn" "h \<notin> set as"
    "distinct as" "h < mallocs s" "list_all (\<lambda>a. a < mallocs s) as"
    "length_bq q = int (length as)"
    and t: "if as = [] then tail q = Some h
            else tail q = Some (last as) \<and> chain (nodes s) (next_node hn) as"
    by (auto simp: queue_ok_def split: option.splits)
  have hn: "h \<noteq> n" using assms(7) h(1) by simp
  show ?thesis
  proof (cases "as = []")
    case True
    let ?s = "s\<lparr>nodes := (nodes s)(h \<mapsto> hn\<lparr>next_node := Some n\<rparr>),
               queues := (queues s)(a \<mapsto> q\<lparr>tail := Some n, length_bq := length_bq q + 1\<rparr>)\<rparr>"
    have "add_batch_queue (Some n) s = Inr (0, ?s)"
      using True t h assms(1,2) by (simp add: add_batch_queue_def)
    moreover have "queue_ok ?s (q\<lparr>tail := Some n, length_bq := length_bq q + 1\<rparr>) [n]"
      using True h hn assms(4,5,8) by (simp add: queue_ok_def)
    ultimately show ?thesis using True assms(1,4) hn by simp
  next
    case False
    with t have tl: "tail q = Some (last as)" and c: "chain (nodes s) (next_node hn) as"
      by simp_all
    have la: "last as \<in> set as" using False by simp
    then obtain tn where tn: "nodes s (last as) = Some tn" using chain_dom [OF c] by blast
    have hl: "h \<noteq> last as" using la h(3) by metis
    have nl: "n \<noteq> last as" using la assms(6) by metis
    let ?ns = "(nodes s)(last as \<mapsto> tn\<lparr>next_node := Some n\<rparr>)"
    let ?q = "q\<lparr>tail := Some n, length_bq := length_bq q + 1\<rparr>"
    let ?s = "s\<lparr>nodes := ?ns, queues := (queues s)(a \<mapsto> ?q)\<rparr>"
    have "add_batch_queue (Some n) s = Inr (0, ?s)"
      using tl tn assms(1,2) by (simp add: add_batch_queue_def)
    moreover have "chain ?ns (next_node hn) (as @ [n])"
      using chain_snoc [OF c False h(4) assms(6) tn assms(5)] assms(4)
      by (simp add: map_upd_triv)
    then have "queue_ok ?s ?q (as @ [n])"
      using h hl hn assms(6,8) by (simp add: queue_ok_def)
    moreover have "\<forall>b \<in> set as. map_option query (?ns b) = map_option query (nodes s b) \<and>
              map_option share_query_handle (?ns b) = map_option share_query_handle (nodes s b)"
      using tn by simp
    ultimately show ?thesis using assms(1,4) nl h(1) by simp
  qed
qed


lemma bq_inv_init: "bq_inv (init_state f j)"
  by (simp add: bq_inv_def init_state_def)

lemma queue_ok_fresh_queue:
  "queue_ok
     (s\<lparr>bq := b, mallocs := Suc (Suc (mallocs s)),
        nodes := (nodes s)(Suc (mallocs s) \<mapsto> j), queues := qs\<rparr>)
     \<lparr>head = Some (Suc (mallocs s)), tail = Some (Suc (mallocs s)), length_bq = 0\<rparr> []"
  by (simp add: queue_ok_def)

lemma bq_inv_create: "bq_inv (snd (create_batch_queue s))"
  using queue_ok_fresh_queue [where s = s]
  by (auto simp: create_batch_queue_def malloc_def bq_inv_def)

lemma log_err_fields:
  "bq (log_err msg s) = bq s" "queues (log_err msg s) = queues s"
  "nodes (log_err msg s) = nodes s" "mallocs (log_err msg s) = mallocs s"
  by (simp_all add: log_err_def)

lemma queue_ok_log_err: "queue_ok (log_err msg s) q as = queue_ok s q as"
  by (simp add: queue_ok_def log_err_fields cong: option.case_cong)

lemma bq_inv_log_err: "bq_inv (log_err msg s) = bq_inv s"
  by (simp add: bq_inv_def log_err_fields queue_ok_log_err cong: option.case_cong)

lemma add_batch_queue_null:
  "bq s = None \<or> node = None \<Longrightarrow>
   add_batch_queue node s = Inr (1, log_err ''The queue or the adding node is null.\<newline>'' s)"
  by (auto simp: add_batch_queue_def split: option.splits)

lemma enqueue_step:
  assumes "bq_inv s" and "enqueue sz dbo s = Inr (r, s')"
  shows "bq_inv s' \<and> bq s' = bq s \<and>
         (\<forall>a q as. bq s = Some a \<longrightarrow> queues s a = Some q \<longrightarrow> queue_ok s q as \<longrightarrow>
            (\<exists>q'. queues s' a = Some q' \<and> head q' = head q \<and>
               (if r = 0
                then \<exists>col lo hi h. operator_fields dbo = SELECT col lo hi h \<and> length h \<le> sz \<and>
                       queue_ok s' q' (as @ [mallocs s]) \<and>
                       nodes s' (mallocs s) =
                         Some \<lparr>query = dbo, next_node = None, share_query_handle = h\<rparr> \<and>
                       (\<forall>b \<in> set as.
                          map_option query (nodes s' b) = map_option query (nodes s b) \<and>
                          map_option share_query_handle (nodes s' b) =
                            map_option share_query_handle (nodes s b))
                else q' = q \<and> nodes s' = nodes s \<and> queue_ok s' q' as)))"
proof -
  from assms(2) obtain node s1 where c: "create_node sz dbo s = Inr (node, s1)"
    and a: "add_batch_queue node s1 = Inr (r, s')"
    by (auto simp: enqueue_def split: sum.splits)
  note cn = create_node_cases [OF c]
  show ?thesis
  proof (cases "bq s = None \<or> node = None")
    case True
    then have s': "s' = log_err ''The queue or the adding node is null.\<newline>'' s1" and r: "r = 1"
      using add_batch_queue_null [of s1 node] a cn by auto
    show ?thesis
    proof (cases "bq s")
      case None
      then show ?thesis using s' cn by (simp add: bq_inv_def log_err_fields)
    next
      case (Some a0)
      with True have n: "node = None" by simp
      with cn have e: "nodes s1 = nodes s" "queues s1 = queues s" "bq s1 = bq s"
        "mallocs s \<le> mallocs s1" by simp_all
      have k: "queue_ok s' q as" if "queue_ok s q as" for q as
        using queue_ok_same_nodes [OF that e(1) e(4)] s' by (simp add: queue_ok_log_err)
      have "bq_inv s'" using assms(1) k e s'
        by (auto simp: bq_inv_def log_err_fields split: option.splits)
      then show ?thesis using e s' r k by (auto simp: log_err_fields)
    qed
  next
    case False
    then obtain a0 n where an: "bq s = Some a0" "node = Some n" by auto
    from cn an obtain col lo hi h where n: "n = mallocs s"
      and f: "operator_fields dbo = SELECT col lo hi h" "length h \<le> sz"
        "nodes s1 = (nodes s)(n \<mapsto> \<lparr>query = dbo, next_node = None, share_query_handle = h\<rparr>)"
      and e: "queues s1 = queues s" "bq s1 = bq s" "mallocs s < mallocs s1"
      by auto
    let ?new = "\<lparr>query = dbo, next_node = None, share_query_handle = h\<rparr>"
    obtain q0 where q0: "queues s a0 = Some q0"
      using a an e by (auto simp: add_batch_queue_def split: option.splits)
    have step: "\<exists>q'. add_batch_queue (Some n) s1 = Inr (0, s') \<and> bq s' = Some a0 \<and>
           queues s' a0 = Some q' \<and> head q' = head q0 \<and> queue_ok s' q' (as @ [n]) \<and>
           nodes s' n = Some ?new \<and>
           (\<forall>b \<in> set as. map_option query (nodes s' b) = map_option query (nodes s b) \<and>
              map_option share_query_handle (nodes s' b) =
                map_option share_query_handle (nodes s b))"
      if ok: "queue_ok s q0 as" for as
    proof -
      from queue_ok_fresh_node [OF ok f(3) [unfolded n] e(3)]
      have k: "queue_ok s1 q0 as" "n \<notin> set as" "head q0 \<noteq> Some n" using n by simp_all
      have "n < mallocs s1" using n e(3) by simp
      from add_batch_queue_ok [OF _ _ k(1) _ _ k(2) k(3) this, of a0 ?new]
      obtain s2 q' where "add_batch_queue (Some n) s1 = Inr (0, s2)" "bq s2 = Some a0"
        "queues s2 a0 = Some q'" "head q' = head q0" "queue_ok s2 q' (as @ [n])"
        "nodes s2 n = Some ?new"
        "\<forall>b \<in> set as. map_option query (nodes s2 b) = map_option query (nodes s1 b) \<and>
              map_option share_query_handle (nodes s2 b) =
                map_option share_query_handle (nodes s1 b)"
        using an e q0 f(3) by auto
      moreover from this a an have "s2 = s'" by simp
      moreover have "nodes s1 b = nodes s b" if "b \<in> set as" for b
        using that k(2) f(3) by auto
      ultimately show ?thesis by auto
    qed
    from assms(1) an q0 obtain as0 where as0: "queue_ok s q0 as0"
      by (auto simp: bq_inv_def)
    from step [OF as0] a an have r: "r = 0" by auto
    have "bq_inv s'" using step [OF as0] by (auto simp: bq_inv_def)
    moreover have "bq s' = bq s" using step [OF as0] an by auto
    ultimately show ?thesis using step an q0 r f n by auto
  qed
qed

lemma bq_inv_run: "bq_inv s \<Longrightarrow> run sz ops s = Inr s' \<Longrightarrow> bq_inv s'"
proof (induction sz ops s rule: run.induct)
  case (1 sz s)
  then show ?case by simp
next
  case (2 sz ops s)
  then show ?case using bq_inv_create by simp
next
  case (3 sz q ops s)
  then show ?case using enqueue_step by (fastforce split: sum.splits)
qed


text \<open>
  What an enqueue that returns 0 does to a queue reached from the initial state: the new
  node is the last one visited, it holds the operator and a copy of its handle, which fits
  the buffer, and the nodes that were there keep their order and their content.
\<close>

lemma enqueue_appends_at_tail:
  assumes "run sz ops (init_state f j) = Inr s" and "bq s = Some a" and "queues s a = Some q"
    and "traverse s = Some (Inr as)" and "enqueue sz dbo s = Inr (0, s')"
  shows "\<exists>col lo hi h. operator_fields dbo = SELECT col lo hi h \<and> length h \<le> sz \<and>
           traverse s' = Some (Inr (as @ [mallocs s])) \<and>
           nodes s' (mallocs s) =
             Some \<lparr>query = dbo, next_node = None, share_query_handle = h\<rparr> \<and>
           (\<forall>b \<in> set as.
              map_option query (nodes s' b) = map_option query (nodes s b) \<and>
              map_option share_query_handle (nodes s' b) =
                map_option share_query_handle (nodes s b))"
proof -
  have i: "bq_inv s" using bq_inv_run [OF bq_inv_init assms(1)] .
  then obtain as0 where ok: "queue_ok s q as0" using assms(2,3) by (auto simp: bq_inv_def)
  have "as0 = as" using traverse_queue_ok [OF assms(2,3) ok] assms(4) by simp
  with ok have ok': "queue_ok s q as" by simp
  from enqueue_step [OF i assms(5)] assms(2,3) ok'
  obtain q' col lo hi h where r: "bq s' = Some a" "queues s' a = Some q'"
    "operator_fields dbo = SELECT col lo hi h" "length h \<le> sz"
    "queue_ok s' q' (as @ [mallocs s])"
    "nodes s' (mallocs s) = Some \<lparr>query = dbo, next_node = None, share_query_handle = h\<rparr>"
    "\<forall>b \<in> set as.
       map_option query (nodes s' b) = map_option query (nodes s b) \<and>
       map_option share_query_handle (nodes s' b) = map_option share_query_handle (nodes s b)"
    by fastforce
  from traverse_queue_ok [OF r(1,2,5)] r(3,4,6,7) show ?thesis by simp
qed

subsection \<open>The length of the queue\<close>

text \<open>
  Claim C7, as stated: for every queue reached by any sequence of queue creations and
  enqueue operations, the counter equals the number of real nodes reachable from the
  \<open>next\<close> pointer of the head, and the sentinel is never removed or counted.

  It fails in two ways. \<open>create_batch_queue\<close> does not initialise the \<open>next\<close> pointer
  of the sentinel: when the memory it gets holds the address of a node of an earlier
  queue, the new queue has the counter 0 and that node behind its head. And
  \<open>add_batch_queue\<close> does not touch the \<open>next\<close> pointer of the node it is given: when
  node 2, which an earlier queue holds in front of node 4, is added to a new queue, the
  counter is 1 and the nodes 2 and 4 are behind the head.
\<close>

theorem queue_length_counterexample:
  "(case run 8
      [Create,
       Enqueue \<lparr>operator_fields = SELECT ''db1.t.c'' ''10'' ''20'' ''a'', client_fd = 3,
                client_context = None\<rparr>,
       Create]
      (init_state no_oom stale_node) of
      Inl f \<Rightarrow> False
    | Inr s \<Rightarrow>
        bq s = Some 4 \<and>
        queues s 4 = Some \<lparr>head = Some 5, tail = Some 5, length_bq = 0\<rparr> \<and>
        map_option next_node (nodes s 5) = Some (Some 2) \<and>
        walk (nodes s) (Some 2) [] = Some (Inr [2])) \<and>
   (case run 8
      [Create,
       Enqueue \<lparr>operator_fields = SELECT ''db1.t.c'' ''10'' ''20'' ''a'', client_fd = 3,
                client_context = None\<rparr>,
       Enqueue \<lparr>operator_fields = SELECT ''db1.t.c'' ''3'' ''20'' ''b'', client_fd = 3,
                client_context = None\<rparr>,
       Create]
      (init_state no_oom blank_node) of
      Inl f \<Rightarrow> False
    | Inr s \<Rightarrow>
        (case add_batch_queue (Some 2) s of
           Inl f \<Rightarrow> False
         | Inr (r, s') \<Rightarrow>
             r = 0 \<and> bq s' = Some 6 \<and>
             queues s' 6 = Some \<lparr>head = Some 7, tail = Some 2, length_bq = 1\<rparr> \<and>
             map_option next_node (nodes s' 7) = Some (Some 2) \<and>
             walk (nodes s') (Some 2) [] = Some (Inr [2, 4])))"
  by (simp add: queue_defs no_oom_def stale_node_def blank_node_def)

text \<open>
  Claim C7, amended: in every state reached from the initial one by creating queues and
  enqueuing operators, where enqueuing is \<open>create_node\<close> followed by \<open>add_batch_queue\<close>
  of the node it returns, whatever allocations fail and whatever the fresh memory holds,
  the queue that \<open>bq\<close> points to is in one of two states. Either head and tail are the
  same node and the counter is 0; the \<open>next\<close> pointer of the sentinel is then not read
  by \<open>show_batch_query\<close>, which visits nothing. Or head and tail differ and the counter
  equals the number of nodes reachable from the \<open>next\<close> pointer of the head, which are all
  different and are the nodes that \<open>show_batch_query\<close> visits. In both states the
  sentinel is allocated, is not one of the nodes counted, and is still the head after a
  further enqueue.
\<close>

theorem queue_length_invariant:
  assumes "run sz ops (init_state f j) = Inr s" and "bq s = Some a" and "queues s a = Some q"
  shows "\<exists>h hn as. head q = Some h \<and> nodes s h = Some hn \<and> h \<notin> set as \<and> distinct as \<and>
           length_bq q = int (length as) \<and> traverse s = Some (Inr as) \<and>
           (head q = tail q \<longrightarrow> as = []) \<and>
           (head q \<noteq> tail q \<longrightarrow> walk (nodes s) (next_node hn) [] = Some (Inr as)) \<and>
           (\<forall>dbo r s'. enqueue sz dbo s = Inr (r, s') \<longrightarrow>
              bq s' = Some a \<and> map_option head (queues s' a) = Some (Some h))"
proof -
  have i: "bq_inv s" using bq_inv_run [OF bq_inv_init assms(1)] .
  then obtain as where ok: "queue_ok s q as" using assms(2,3) by (auto simp: bq_inv_def)
  then obtain h hn where h: "head q = Some h" "nodes s h = Some hn" "h \<notin> set as"
    "distinct as" "length_bq q = int (length as)"
    and t: "if as = [] then tail q = Some h
            else tail q = Some (last as) \<and> chain (nodes s) (next_node hn) as"
    by (auto simp: queue_ok_def split: option.splits)
  have e: "as = []" if "head q = tail q"
  proof (rule ccontr)
    assume n: "as \<noteq> []"
    with t that h(1) have "last as = h" by simp
    with n h(3) show False using last_in_set by metis
  qed
  have w: "walk (nodes s) (next_node hn) [] = Some (Inr as)" if "head q \<noteq> tail q"
  proof -
    from that t h(1) have "as \<noteq> []" by auto
    with t have "chain (nodes s) (next_node hn) as" by simp
    from walk_chain [OF this, of "[]"] show ?thesis by simp
  qed
  have "bq s' = Some a \<and> map_option head (queues s' a) = Some (Some h)"
    if "enqueue sz dbo s = Inr (r, s')" for dbo r s'
    using enqueue_step [OF i that] assms(2,3) ok h(1) by fastforce
  with h e w traverse_queue_ok [OF assms(2,3) ok] show ?thesis by blast
qed

theorem queue_length_invariant_witness:
  "(\<exists>s. run 8 [Create] (init_state no_oom stale_node) = Inr s \<and>
      bq s = Some 0 \<and>
      queues s 0 = Some \<lparr>head = Some 1, tail = Some 1, length_bq = 0\<rparr> \<and>
      map_option next_node (nodes s 1) = Some (Some 2) \<and>
      traverse s = Some (Inr [])) \<and>
   (\<exists>s as s2. run 8
      [Create,
       Enqueue \<lparr>operator_fields = SELECT ''db1.t.c'' ''10'' ''20'' ''a'', client_fd = 3,
                client_context = None\<rparr>,
       Enqueue \<lparr>operator_fields = SELECT ''db1.t.c'' ''3'' ''20'' ''b'', client_fd = 3,
                client_context = None\<rparr>]
      (init_state no_oom stale_node) = Inr s \<and>
    bq s = Some 0 \<and>
    queues s 0 = Some \<lparr>head = Some 1, tail = Some 4, length_bq = 2\<rparr> \<and>
    traverse s = Some (Inr as) \<and> length as = 2 \<and> 1 \<notin> set as \<and>
    map_option (\<lambda>hn. walk (nodes s) (next_node hn) []) (nodes s 1) = Some (Some (Inr as)) \<and>
    enqueue 8 \<lparr>operator_fields = SELECT ''db1.t.c'' ''7'' ''20'' ''c'', client_fd = 3,
                client_context = None\<rparr> s = Inr (0, s2) \<and>
    bq s2 = Some 0 \<and> map_option head (queues s2 0) = Some (Some 1))"
proof -
  obtain s0 where s0: "run 8 [Create] (init_state no_oom stale_node) = Inr s0"
    "bq s0 = Some 0" "queues s0 0 = Some \<lparr>head = Some 1, tail = Some 1, length_bq = 0\<rparr>"
    and n0: "map_option next_node (nodes s0 1) = Some (Some 2)"
    by (simp add: queue_defs no_oom_def stale_node_def)
  from queue_length_invariant [OF s0] have "traverse s0 = Some (Inr [])"
    by auto
  with s0 n0 have first: "\<exists>s. run 8 [Create] (init_state no_oom stale_node) = Inr s \<and>
      bq s = Some 0 \<and>
      queues s 0 = Some \<lparr>head = Some 1, tail = Some 1, length_bq = 0\<rparr> \<and>
      map_option next_node (nodes s 1) = Some (Some 2) \<and>
      traverse s = Some (Inr [])"
    by blast
  obtain s s2 where s: "run 8
      [Create,
       Enqueue \<lparr>operator_fields = SELECT ''db1.t.c'' ''10'' ''20'' ''a'', client_fd = 3,
                client_context = None\<rparr>,
       Enqueue \<lparr>operator_fields = SELECT ''db1.t.c'' ''3'' ''20'' ''b'', client_fd = 3,
                client_context = None\<rparr>]
      (init_state no_oom stale_node) = Inr s" "bq s = Some 0"
      "queues s 0 = Some \<lparr>head = Some 1, tail = Some 4, length_bq = 2\<rparr>"
    and e: "enqueue 8 \<lparr>operator_fields = SELECT ''db1.t.c'' ''7'' ''20'' ''c'', client_fd = 3,
                client_context = None\<rparr> s = Inr (0, s2)"
    by (simp add: queue_defs no_oom_def stale_node_def)
  from queue_length_invariant [OF s] e obtain hn as where
    "nodes s 1 = Some hn" "traverse s = Some (Inr as)" "length as = 2" "1 \<notin> set as"
    "walk (nodes s) (next_node hn) [] = Some (Inr as)"
    "bq s2 = Some 0" "map_option head (queues s2 0) = Some (Some 1)"
    by auto
  with s e have "\<exists>s as s2. run 8
      [Create,
       Enqueue \<lparr>operator_fields = SELECT ''db1.t.c'' ''10'' ''20'' ''a'', client_fd = 3,
                client_context = None\<rparr>,
       Enqueue \<lparr>operator_fields = SELECT ''db1.t.c'' ''3'' ''20'' ''b'', client_fd = 3,
                client_context = None\<rparr>]
      (init_state no_oom stale_node) = Inr s \<and>
    bq s = Some 0 \<and>
    queues s 0 = Some \<lparr>head = Some 1, tail = Some 4, length_bq = 2\<rparr> \<and>
    traverse s = Some (Inr as) \<and> length as = 2 \<and> 1 \<notin> set as \<and>
    map_option (\<lambda>hn. walk (nodes s) (next_node hn) []) (nodes s 1) = Some (Some (Inr as)) \<and>
    enqueue 8 \<lparr>operator_fields = SELECT ''db1.t.c'' ''7'' ''20'' ''c'', client_fd = 3,
                client_context = None\<rparr> s = Inr (0, s2) \<and>
    bq s2 = Some 0 \<and> map_option head (queues s2 0) = Some (Some 1)"
    by auto
  with first show ?thesis by blast
qed

subsection \<open>The emptiness test\<close>

text \<open>
  Claim C3, as stated: \<open>is_bq_empty\<close> returns true exactly when the head pointer of the
  queue equals its tail pointer.

  It fails on the queue that \<open>create_batch_queue\<close> has just built: head and tail are the
  sentinel, and \<open>is_bq_empty\<close> returns 0, which is false in C.
\<close>

theorem is_bq_empty_counterexample:
  "bq (snd (create_batch_queue (init_state no_oom blank_node))) = Some 0 \<and>
   queues (snd (create_batch_queue (init_state no_oom blank_node))) 0 =
     Some \<lparr>head = Some 1, tail = Some 1, length_bq = 0\<rparr> \<and>
   is_bq_empty (snd (create_batch_queue (init_state no_oom blank_node))) = Inr 0"
  by (simp add: create_batch_queue_def init_state_def malloc_def no_oom_def is_bq_empty_def)

text \<open>
  Claim C3, amended: \<open>is_bq_empty\<close> returns 0 when the head pointer of the queue equals
  its tail pointer and 1 when they differ; it also returns 0 when there is no queue. The
  value 0 is the one that means empty: \<open>show_batch_query\<close> prints nothing when it gets
  it.
\<close>

theorem is_bq_empty_zero_when_empty:
  "(bq s = None \<longrightarrow> is_bq_empty s = Inr 0) \<and>
   (bq s = Some a \<longrightarrow> queues s a = Some q \<longrightarrow>
      is_bq_empty s = Inr (if head q = tail q then 0 else 1)) \<and>
   (is_bq_empty s = Inr 0 \<longrightarrow> show_batch_query s = Some (Inr []))"
  by (simp add: is_bq_empty_def show_batch_query_def traverse_def)

theorem is_bq_empty_zero_when_empty_witness:
  "is_bq_empty (init_state no_oom blank_node) = Inr 0 \<and>
   is_bq_empty (snd (create_batch_queue (init_state no_oom blank_node))) = Inr 0 \<and>
   show_batch_query (snd (create_batch_queue (init_state no_oom blank_node))) = Some (Inr []) \<and>
   (\<exists>s. enqueue 8
          \<lparr>operator_fields = SELECT ''db1.t.c'' ''7'' ''20'' ''c'', client_fd = 3,
           client_context = None\<rparr>
          (snd (create_batch_queue (init_state no_oom blank_node))) = Inr (0, s) \<and>
        is_bq_empty s = Inr 1)"
proof -
  obtain s where s:
    "enqueue 8
       \<lparr>operator_fields = SELECT ''db1.t.c'' ''7'' ''20'' ''c'', client_fd = 3,
        client_context = None\<rparr>
       (snd (create_batch_queue (init_state no_oom blank_node))) = Inr (0, s)"
    "bq s = Some 0" "queues s 0 = Some \<lparr>head = Some 1, tail = Some 2, length_bq = 1\<rparr>"
    by (simp add: queue_defs no_oom_def)
  show ?thesis
    using is_bq_empty_zero_when_empty [of "init_state no_oom blank_node"]
      is_bq_empty_zero_when_empty
        [of "snd (create_batch_queue (init_state no_oom blank_node))" 0
            "\<lparr>head = Some 1, tail = Some 1, length_bq = 0\<rparr>"]
      is_bq_empty_zero_when_empty
        [of s 0 "\<lparr>head = Some 1, tail = Some 2, length_bq = 1\<rparr>"] s
    by (simp add: create_batch_queue_def init_state_def malloc_def no_oom_def)
qed

subsection \<open>Order of the queue\<close>

text \<open>
  Claim C1: the queue keeps its nodes ordered by \<open>range_low\<close>; enqueuing nodes with the
  values 10, 3, 7 in that order yields the traversal order 3, 7, 10.

  \<open>add_batch_queue\<close> links every node behind the tail, whatever its range. After a
  queue is created and selections with the lower bounds 10, 3 and 7 are enqueued, with
  every allocation succeeding, \<open>show_batch_query\<close> prints them in the order 10, 3, 7.
\<close>

theorem show_batch_query_arrival_order:
  "(case run 8
      [Create,
       Enqueue \<lparr>operator_fields = SELECT ''db1.t.c'' ''10'' ''20'' ''a'', client_fd = 3,
                client_context = None\<rparr>,
       Enqueue \<lparr>operator_fields = SELECT ''db1.t.c'' ''3'' ''20'' ''b'', client_fd = 3,
                client_context = None\<rparr>,
       Enqueue \<lparr>operator_fields = SELECT ''db1.t.c'' ''7'' ''20'' ''c'', client_fd = 3,
                client_context = None\<rparr>]
      (init_state no_oom j) of
      Inl f \<Rightarrow> None
    | Inr s \<Rightarrow> show_batch_query s) =
   Some (Inr [''query: db1.t.c, 10, 20.\<newline>'', ''query: db1.t.c, 3, 20.\<newline>'',
              ''query: db1.t.c, 7, 20.\<newline>''])"
  by (simp add: queue_defs no_oom_def)

subsection \<open>The copy of the handle\<close>

text \<open>
  In general: \<open>create_node\<close> never returns a node for a handle that has more
  characters than the handle field has bytes.
\<close>

lemma create_node_long_handle:
  assumes "operator_fields dbo = SELECT col lo hi h" and "sz < length h"
  shows "\<forall>n s1. create_node sz dbo s \<noteq> Inr (Some n, s1)"
  using assms create_node_cases [of sz dbo s] by fastforce

text \<open>
  Claim C4: a select operator with bounds \<open>L\<close>, \<open>H\<close> and handle \<open>Hd\<close> that is wrapped
  into a node and enqueued is found with the same \<open>L\<close>, \<open>H\<close> and \<open>Hd\<close> when the
  queue is traversed.

  With a handle field that is a \<open>char*\<close> of 8 bytes, \<open>create_node\<close> allocates 9 bytes
  for the copy. The handle \<open>result_10\<close> has 9 characters: \<open>strcpy\<close> writes 10 bytes,
  one beyond the buffer, and nothing is enqueued.
\<close>

theorem create_node_handle_overflow:
  "enqueue 8
     \<lparr>operator_fields = SELECT ''db1.t.c'' ''3'' ''7'' ''result_10'', client_fd = 3,
      client_context = None\<rparr>
     (snd (create_batch_queue (init_state no_oom j))) = Inl Buffer_overflow"
  by (simp add: queue_defs no_oom_def)

subsection \<open>White space\<close>

text \<open>
  Claim C8, as stated: before the keywords are matched, exactly the leading and trailing
  white space of the command is stripped, and the characters inside stay in place.

  It fails on the command \<open> create(db,"my db") \<close>: \<open>trim_whitespace\<close> also removes
  the space inside the name.
\<close>

theorem trim_whitespace_interior_counterexample:
  \<open>trim_whitespace '' create(db,"my db") '' = ''create(db,"mydb")'' \<and>
   strip_leading_trailing_whitespace '' create(db,"my db") '' = ''create(db,"my db")'' \<and>
   trim_whitespace '' create(db,"my db") '' \<noteq>
     strip_leading_trailing_whitespace '' create(db,"my db") ''\<close>
  by (simp add: trim_whitespace_filter strip_leading_trailing_whitespace_def isspace_def)

text \<open>
  Claim C8, amended: before the keywords are matched, every white-space character of
  the command text behind the handle is removed, leading, trailing and interior, and the
  other characters keep their order; the keywords are matched against the result, so two
  commands that are no comment lines and differ in white space only compile to the same
  result.
\<close>

theorem trim_whitespace_removes_all:
  "trim_whitespace str = filter (\<lambda>c. \<not> isspace c) str \<and>
   (\<not> strncmp_eq c1 ''--'' 2 \<longrightarrow> \<not> strncmp_eq c2 ''--'' 2 \<longrightarrow>
    filter (\<lambda>c. \<not> isspace c) (after_handle c1) =
      filter (\<lambda>c. \<not> isspace c) (after_handle c2) \<longrightarrow>
    parse_command c1 fd ctx = parse_command c2 fd ctx)"
  by (simp add: trim_whitespace_filter parse_command_def)

theorem trim_whitespace_removes_all_witness:
  \<open>trim_whitespace '' a b '' = ''ab'' \<and>
   parse_command '' create(db, "x") '' 3 None = parse_command ''create(db,"x")'' 3 None\<close>
  using trim_whitespace_removes_all
    [of "'' a b ''" \<open>'' create(db, "x") ''\<close> \<open>''create(db,"x")''\<close> 3 None]
  by (simp add: strncmp_eq_def after_handle_def isspace_def)

subsection \<open>Unknown commands\<close>

text \<open>
  Claim C5, as stated: every command whose text, without handle and white space, starts
  with none of the keywords compiles to an error operator that carries
  \<open>error command, please try again.\<close>, and executing it yields that message.

  It fails on the comment line \<open>--x\<close>, which starts with no keyword and compiles to no
  operator.
\<close>

theorem comment_line_counterexample:
  "\<not> has_keyword (trim_whitespace (after_handle ''--x'')) \<and>
   parse_command ''--x'' 3 None = Inr (OK_DONE, None)"
  by (simp add: has_keyword_def keyword_set_def trim_whitespace_filter after_handle_def
      isspace_def parse_command_def strncmp_eq_def)

text \<open>
  Claim C5, amended: every command that does not start with \<open>--\<close> and whose text,
  without handle and white space, starts with none of the keywords compiles to an error
  operator that carries \<open>error command, please try again.\<close> followed by a line feed;
  executing that operator yields exactly this message, line feed included, and leaves the
  server state as it is.
\<close>

theorem unknown_command_error:
  assumes "\<not> prefix ''--'' cmd"
    and "\<not> has_keyword (trim_whitespace (after_handle cmd))"
  shows "parse_command cmd fd ctx =
           Inr (OK_WAIT_FOR_RESPONSE,
                Some \<lparr>operator_fields = ERROR_CMD ''error command, please try again.\<newline>'',
                      client_fd = fd, client_context = ctx\<rparr>) \<and>
         execute_DbOperator ext
           (Some \<lparr>operator_fields = ERROR_CMD ''error command, please try again.\<newline>'',
                  client_fd = fd, client_context = ctx\<rparr>) st =
           Inr (''error command, please try again.\<newline>'', st) \<and>
         handle_client ext cmd fd st = Inr (''error command, please try again.\<newline>'', st)"
proof -
  let ?q = "trim_whitespace (after_handle cmd)"
  have n: "\<not> prefix ''create(db,'' ?q" "\<not> prefix ''create(tbl,'' ?q"
    "\<not> prefix ''create(col,'' ?q" "\<not> prefix ''load('' ?q"
    "\<not> prefix ''relational_insert'' ?q" "\<not> prefix ''shutdown'' ?q"
    using assms(2) by (simp_all add: has_keyword_def keyword_set_def)
  have k0: "\<not> strncmp_eq cmd ''--'' 2"
    by (rule no_prefix_strncmp [OF assms(1)]) simp
  have k1: "\<not> strncmp_eq ?q ''create(db,'' 10"
    by (rule no_prefix_strncmp [OF n(1)]) simp
  have k2: "\<not> strncmp_eq ?q ''create(tbl,'' 11"
    by (rule no_prefix_strncmp [OF n(2)]) simp
  have k3: "\<not> strncmp_eq ?q ''create(col,'' 11"
    by (rule no_prefix_strncmp [OF n(3)]) simp
  have k4: "\<not> strncmp_eq ?q ''load('' 5"
    by (rule no_prefix_strncmp [OF n(4)]) simp
  have k5: "\<not> strncmp_eq ?q ''relational_insert'' 17"
    by (rule no_prefix_strncmp [OF n(5)]) simp
  have k6: "\<not> strncmp_eq ?q ''shutdown'' 8"
    by (rule no_prefix_strncmp [OF n(6)]) simp
  have p: "parse_command cmd fd c =
           Inr (OK_WAIT_FOR_RESPONSE,
                Some \<lparr>operator_fields = ERROR_CMD ''error command, please try again.\<newline>'',
                      client_fd = fd, client_context = c\<rparr>)" for c
    unfolding parse_command_def Let_def using k0 k1 k2 k3 k4 k5 k6
    by (simp only: if_False error_dbo_def sum.case)
  have e: "execute_DbOperator ext
           (Some \<lparr>operator_fields = ERROR_CMD ''error command, please try again.\<newline>'',
                  client_fd = fd, client_context = c\<rparr>) st =
           Inr (''error command, please try again.\<newline>'', st)" for c
    by (simp add: execute_DbOperator_def)
  have h: "handle_client ext cmd fd st = Inr (''error command, please try again.\<newline>'', st)"
    unfolding handle_client_def by (simp only: p sum.case prod.case e)
  show ?thesis
    using p e h by blast
qed

theorem unknown_command_error_witness:
  "parse_command ''badcommand(x,y)'' 3 None =
     Inr (OK_WAIT_FOR_RESPONSE,
          Some \<lparr>operator_fields = ERROR_CMD ''error command, please try again.\<newline>'',
                client_fd = 3, client_context = None\<rparr>) \<and>
   handle_client stub_collaborators ''badcommand(x,y)'' 3 idle_server =
     Inr (''error command, please try again.\<newline>'', idle_server)"
  using unknown_command_error [of "''badcommand(x,y)''" 3 None stub_collaborators idle_server]
  by (simp add: has_keyword_def keyword_set_def trim_whitespace_filter after_handle_def
      isspace_def)

subsection \<open>The column count of create(tbl,...)\<close>

text \<open>
  What \<open>parse_create_tbl\<close> makes of three well-formed arguments: an error operator
  exactly when \<open>atoi\<close> yields 0, a \<open>CREATE_TBL\<close> operator for every other count that
  is an \<open>int\<close>, the negative ones included.
\<close>

lemma parse_create_tbl_count:
  assumes "CHR '','' \<notin> set tbl" and "CHR '','' \<notin> set db" and "CHR '','' \<notin> set cnt"
  shows "parse_create_tbl (tbl @ '','' @ db @ '','' @ cnt @ '')'') =
     (if atoi cnt < - (2 ^ 31) \<or> 2 ^ 31 \<le> atoi cnt then Inl Int_out_of_range
      else if atoi cnt = 0 then Inr (ERROR_CMD ''query unsupported, wrong column number'')
      else Inr (CREATE_TBL db (db @ ''.'' @ trim_quotes tbl) (word_of_int (atoi cnt))))"
proof -
  have c: "CHR '','' \<notin> set (cnt @ '')'')" using assms(3) by simp
  have t1: "next_token_comma (Some (tbl @ CHR '','' # db @ CHR '','' # cnt @ '')'')) OK_DONE =
        (Some tbl, Some (db @ CHR '','' # cnt @ '')''), OK_DONE)"
    using strsep_token [OF assms(1)] by (simp add: next_token_comma_def)
  have t2: "next_token_comma (Some (db @ CHR '','' # cnt @ '')'')) OK_DONE =
        (Some db, Some (cnt @ '')''), OK_DONE)"
    using strsep_token [OF assms(2)] by (simp add: next_token_comma_def)
  have t3: "next_token_comma (Some (cnt @ '')'')) OK_DONE = (Some (cnt @ '')''), None, OK_DONE)"
    using strsep_last [OF c] by (simp add: next_token_comma_def)
  have ch: "token_read (CHR 0x00) (cnt @ '')'') (int (length cnt)) = Some (CHR '')'')"
    by (simp add: token_read_def char_at_def)
  show ?thesis
  proof (cases "atoi cnt < - (2 ^ 31) \<or> 2 ^ 31 \<le> atoi cnt")
    case True
    then show ?thesis
      by (simp add: parse_create_tbl_def t1 t2 t3 ch)
  next
    case False
    then have "((word_of_int (atoi cnt) :: 64 word) < 1) = (atoi cnt = 0)"
      using size_t_less_1 [of "atoi cnt"] by simp
    with False show ?thesis
      by (simp add: parse_create_tbl_def t1 t2 t3 ch error_dbo_def)
  qed
qed

text \<open>
  Claim C2: a \<open>create(tbl,...)\<close> command whose column count is not numeric or less than 1,
  negative values included, compiles to an error operator.

  The count \<open>-1\<close> becomes the largest \<open>size_t\<close> when it is stored, the test
  \<open>column_cnt < 1\<close> does not fire, and the command compiles to a \<open>CREATE_TBL\<close> operator
  with \<open>2 ^ 64 - 1\<close> columns.
\<close>

theorem parse_create_tbl_negative_count:
  \<open>parse_command ''create(tbl,"grades",db1,-1)'' fd ctx =
     Inr (OK_WAIT_FOR_RESPONSE,
          Some \<lparr>operator_fields = CREATE_TBL ''db1'' ''db1.grades'' 18446744073709551615,
                client_fd = fd, client_context = ctx\<rparr>)\<close>
  by (simp add: parse_defs)

subsection \<open>The closing parenthesis of the last token\<close>






lemma parse_create_db_empty:
  "parse_create_db [] = Inr (ERROR_CMD create_db_usage) \<and>
   parse_load [] = Inr (ERROR_CMD load_usage)"
  by (simp add: parse_create_db_def parse_load_def trim_quotes_def error_dbo_def)




subsection \<open>Comment lines\<close>

text \<open>
  Claim C10: for every command line received, parsing and then executing yields a
  response; for a comment line no operator is returned and the dispatcher reads no field
  of an absent operator.

  \<open>parse_command\<close> returns \<open>NULL\<close> for a line that starts with \<open>--\<close>, and
  \<open>handle_client\<close> passes it on: \<open>execute_DbOperator\<close> reads \<open>query->type\<close> through
  the null pointer.
\<close>

theorem handle_client_comment_line:
  "parse_command ''--comment'' fd None = Inr (OK_DONE, None) \<and>
   handle_client ext ''--comment'' fd st = Inl Null_pointer"
  by (simp add: handle_client_def execute_DbOperator_def parse_command_def strncmp_eq_def)

subsection \<open>Shutdown\<close>

text \<open>
  Claim C6: executing a shutdown operator calls the persistence first and the teardown
  of the three stores after it; a failure of the persistence is logged and the teardown
  runs all the same; the response is always
  \<open>persist all the data and shutdown the server.\<close> with a line feed.
\<close>

theorem execute_shutdown:
  "execute_DbOperator ext
     (Some \<lparr>operator_fields = SHUTDOWN, client_fd = fd, client_context = ctx\<rparr>) st =
   Inr (''persist all the data and shutdown the server.\<newline>'',
        st\<lparr>catalog := free_col_store ext (free_tbl_store ext (free_db_store ext
               (snd (persist_data_csv ext (catalog st))))),
           server_log := server_log st @
             (if fst (persist_data_csv ext (catalog st)) = 0 then []
              else [''persist all the data failed.\<newline>'']),
           calls := calls st @
             [Call_persist_data_csv, Call_free_db_store, Call_free_tbl_store,
              Call_free_col_store]\<rparr>)"
  by (simp add: execute_DbOperator_def called_def split: prod.splits)

end
